theory Spec2Isabelle
  imports Complex_Main "HOL-Library.AList"
begin

section \<open>The Python runtime the kernel relies on\<close>

text \<open>
  The module \<open>wlgk.py\<close> is pure Python over three libraries: the built-in \<open>hash\<close>,
  \<open>dict\<close> and \<open>set\<close>, the graph classes of networkx, and numpy arrays of floats.
  Nodes and colours are Python integers (the source annotates both as \<open>int\<close>).
\<close>

type_synonym node = int
type_synonym colour = int

text \<open>
  A \<open>dict\<close> is an association list in insertion order with distinct keys.
  \<open>AList.update\<close> is \<open>d[k] = v\<close>: it overwrites the entry of a key that is present, in place, and
  appends a new entry otherwise.
\<close>

type_synonym ('k, 'v) pydict = "('k \<times> 'v) list"

datatype error = KeyError | TypeError

definition dict_lookup :: "('k, 'v) pydict \<Rightarrow> 'k \<Rightarrow> error + 'v" where
  \<comment> \<open>\<open>d[k]\<close>, which raises \<open>KeyError\<close> on a missing key\<close>
  "dict_lookup d k = (case map_of d k of None \<Rightarrow> Inl KeyError | Some v \<Rightarrow> Inr v)"

definition dict_get :: "('k, 'v) pydict \<Rightarrow> 'k \<Rightarrow> 'v \<Rightarrow> 'v" where
  \<comment> \<open>\<open>d.get(k, default)\<close>\<close>
  "dict_get d k dflt = (case map_of d k of None \<Rightarrow> dflt | Some v \<Rightarrow> v)"

definition dict_keys :: "('k, 'v) pydict \<Rightarrow> 'k list" where
  "dict_keys d = map fst d"

definition dict_values :: "('k, 'v) pydict \<Rightarrow> 'v list" where
  "dict_values d = map snd d"

definition dict_comp :: "('k \<times> 'v) list \<Rightarrow> ('k, 'v) pydict" where
  \<comment> \<open>the dict comprehension \<open>{k: v for ...}\<close>: one assignment per generated pair\<close>
  "dict_comp kvs = foldl (\<lambda>d (k, v). AList.update k v d) [] kvs"

text \<open>
  A numpy \<open>float64\<close> is a real number, an infinity (the flag tells the positive one) or
  NaN.
\<close>

datatype npfloat = Fin real | Inf bool | NaN

text \<open>
  What is left of the interpreter and of numpy is a parameter of the model:
  \<^item> \<open>hash\<close> on an integer and \<open>hash\<close> on a tuple of integers;
  \<^item> the order in which the set \<open>set(ks1).union(set(ks2))\<close> is iterated;
  \<^item> \<open>np_linalg_norm v\<close>, the call \<open>np.linalg.norm(np.array(v))\<close> on a list of Python
    integers, which raises \<open>TypeError\<close> when numpy has to keep the integers as objects;
  \<^item> \<open>np_true_divide x r\<close>, one entry of \<open>np.array(v) / r\<close>: the count \<open>x\<close> converted
    to \<open>float64\<close> and divided by the \<open>float64\<close> \<open>r\<close> (numpy warns on a zero divisor and
    does not raise);
  \<^item> \<open>np_dot a b\<close>, the call \<open>np.dot\<close> on two \<open>float64\<close> vectors of one length.

  How the three numpy operations round, and in which order \<open>np.dot\<close> accumulates, is left
  open: no result of floating-point arithmetic is fixed by the model beyond what
  \<open>numpy_ok\<close> states below.
\<close>

record pyrt =
  hash_int :: "int \<Rightarrow> int"
  hash_tuple :: "int list \<Rightarrow> int"
  set_union_order :: "colour list \<Rightarrow> colour list \<Rightarrow> colour list"
  np_linalg_norm :: "int list \<Rightarrow> error + npfloat"
  np_true_divide :: "int \<Rightarrow> npfloat \<Rightarrow> npfloat"
  np_dot :: "npfloat list \<Rightarrow> npfloat list \<Rightarrow> npfloat"

text \<open>
  Nothing is assumed of the two hash functions. Of the iteration order, \<open>set_order_ok\<close>
  says what Python guarantees: every member once.
\<close>

definition set_order_ok :: "pyrt \<Rightarrow> bool" where
  "set_order_ok rt \<longleftrightarrow>
     (\<forall>ks1 ks2. distinct (set_union_order rt ks1 ks2)
        \<and> set (set_union_order rt ks1 ks2) = set ks1 \<union> set ks2)"

text \<open>
  \<open>numpy_ok\<close> collects the facts about \<open>float64\<close> arithmetic that the properties below
  rest on. Each holds for IEEE 754 round-to-nearest whatever the order of accumulation:
  \<^enum> integers that all fit \<open>int64\<close> make an \<open>int64\<close> array, whose norm is computed without
    an exception;
  \<^enum> the norm of a vector of zeros, the empty vector included, is \<open>0.0\<close>;
  \<^enum> when a norm is returned for a vector with a non-zero entry, it is at least 1 (the
    square of that entry is at least 1, the other squares are not negative, rounding is
    monotone and keeps 1), possibly \<open>+inf\<close>;
  \<^enum> \<open>0 / 0.0\<close> is NaN;
  \<^enum> a count from 0 up to \<open>2^63\<close> divided by a norm that is at least 1 is a finite value
    between 0 and \<open>2^63\<close>;
  \<^enum> the dot product of two empty vectors is \<open>0.0\<close>;
  \<^enum> NaN in either vector makes the dot product NaN;
  \<^enum> the dot product of fewer than \<open>2^64\<close> pairs of finite values between 0 and \<open>2^63\<close> is
    finite (it stays far below the largest \<open>float64\<close>).
\<close>

definition in_int64 :: "int \<Rightarrow> bool" where
  "in_int64 x \<longleftrightarrow> - (2 ^ 63) \<le> x \<and> x < 2 ^ 63"

fun at_least_one :: "npfloat \<Rightarrow> bool" where
  "at_least_one (Fin t) = (1 \<le> t)"
| "at_least_one (Inf s) = s"
| "at_least_one NaN = False"

fun small_nonneg :: "npfloat \<Rightarrow> bool" where
  "small_nonneg (Fin q) = (0 \<le> q \<and> q \<le> 2 ^ 63)"
| "small_nonneg (Inf s) = False"
| "small_nonneg NaN = False"

definition numpy_ok :: "pyrt \<Rightarrow> bool" where
  "numpy_ok rt \<longleftrightarrow>
     (\<forall>v. list_all in_int64 v \<longrightarrow> (\<exists>r. np_linalg_norm rt v = Inr r))
   \<and> (\<forall>v. list_all (\<lambda>x. x = 0) v \<longrightarrow> np_linalg_norm rt v = Inr (Fin 0))
   \<and> (\<forall>v r. np_linalg_norm rt v = Inr r \<and> \<not> list_all (\<lambda>x. x = 0) v \<longrightarrow> at_least_one r)
   \<and> np_true_divide rt 0 (Fin 0) = NaN
   \<and> (\<forall>x r. 0 \<le> x \<and> x < 2 ^ 63 \<and> at_least_one r
          \<longrightarrow> small_nonneg (np_true_divide rt x r))
   \<and> np_dot rt [] [] = Fin 0
   \<and> (\<forall>a b. length a = length b \<and> (NaN \<in> set a \<or> NaN \<in> set b) \<longrightarrow> np_dot rt a b = NaN)
   \<and> (\<forall>a b. length a = length b \<and> length a < 2 ^ 64
            \<and> list_all small_nonneg a \<and> list_all small_nonneg b
          \<longrightarrow> (\<exists>s. np_dot rt a b = Fin s))"

text \<open>
  A networkx graph is seen through the methods the module calls. \<open>nodes\<close> is the
  iteration of \<open>G.nodes()\<close>; \<open>degree\<close> and \<open>neighbors\<close> are read on an undirected graph,
  the other four on a directed one.
\<close>

record graph =
  is_directed :: bool
  nodes :: "node list"
  degree :: "node \<Rightarrow> int"
  in_degree :: "node \<Rightarrow> int"
  out_degree :: "node \<Rightarrow> int"
  neighbors :: "node \<Rightarrow> node list"
  predecessors :: "node \<Rightarrow> node list"
  successors :: "node \<Rightarrow> node list"

text \<open>
  networkx keeps its graphs well formed: a node is listed once, and every neighbour,
  predecessor and successor of a node is a node of the graph.
\<close>

definition wf_graph :: "graph \<Rightarrow> bool" where
  "wf_graph G \<longleftrightarrow>
     distinct (nodes G) \<and>
     list_all (\<lambda>v. if is_directed G
                   then set (predecessors G v) \<subseteq> set (nodes G)
                      \<and> set (successors G v) \<subseteq> set (nodes G)
                   else set (neighbors G v) \<subseteq> set (nodes G)) (nodes G)"

section \<open>The module wlgk.py\<close>

definition get_initial_colours :: "pyrt \<Rightarrow> graph \<Rightarrow> (node, colour) pydict" where
  "get_initial_colours rt G =
     (if \<not> is_directed G
      then dict_comp (map (\<lambda>node. (node, hash_int rt (degree G node))) (nodes G))
      else dict_comp (map (\<lambda>node. (node, hash_tuple rt [in_degree G node, out_degree G node]))
                       (nodes G)))"

definition update_colour_counts ::
  "(colour, int) pydict \<Rightarrow> (node, colour) pydict \<Rightarrow> (colour, int) pydict" where
  "update_colour_counts colour_counts current_node_colours =
     foldl (\<lambda>cc colour. AList.update colour (dict_get cc colour 0 + 1) cc)
       colour_counts (dict_values current_node_colours)"

definition new_colour_from_colour_pair :: "pyrt \<Rightarrow> colour \<Rightarrow> colour \<Rightarrow> colour" where
  "new_colour_from_colour_pair rt colour_1 colour_2 = hash_tuple rt (sort [colour_1, colour_2])"

fun lookup_all :: "(node, colour) pydict \<Rightarrow> node list \<Rightarrow> error + colour list" where
  \<comment> \<open>the list comprehension \<open>[node_colours[n] for n in ns]\<close>\<close>
  "lookup_all node_colours [] = Inr []"
| "lookup_all node_colours (n # ns) =
     (case dict_lookup node_colours n of
        Inl e \<Rightarrow> Inl e
      | Inr c \<Rightarrow> (case lookup_all node_colours ns of
                   Inl e \<Rightarrow> Inl e
                 | Inr cs \<Rightarrow> Inr (c # cs)))"

definition new_colour_from_neighbours ::
  "pyrt \<Rightarrow> graph \<Rightarrow> node \<Rightarrow> (node, colour) pydict \<Rightarrow> error + colour" where
  "new_colour_from_neighbours rt G node node_colours =
     (if is_directed G = False
      then (case lookup_all node_colours (neighbors G node) of
              Inl e \<Rightarrow> Inl e
            | Inr cs \<Rightarrow> Inr (hash_tuple rt (sort cs)))
      else (case lookup_all node_colours (predecessors G node) of
              Inl e \<Rightarrow> Inl e
            | Inr ps \<Rightarrow>
               (let new_colour_predecessors = hash_tuple rt (sort ps)
                in case lookup_all node_colours (successors G node) of
                     Inl e \<Rightarrow> Inl e
                   | Inr ss \<Rightarrow>
                      (let new_colour_successors = hash_tuple rt (sort ss)
                       in Inr (hash_tuple rt
                                 [new_colour_predecessors, new_colour_successors])))))"

fun refine_nodes ::
  "pyrt \<Rightarrow> graph \<Rightarrow> (node, colour) pydict \<Rightarrow> node list \<Rightarrow> (node, colour) pydict
     \<Rightarrow> error + (node, colour) pydict" where
  \<comment> \<open>the inner loop \<open>for node in G.nodes()\<close>, filling \<open>new_node_colours\<close>\<close>
  "refine_nodes rt G node_colours [] new_node_colours = Inr new_node_colours"
| "refine_nodes rt G node_colours (node # rest) new_node_colours =
     (case dict_lookup node_colours node of
        Inl e \<Rightarrow> Inl e
      | Inr old_colour \<Rightarrow>
         (case new_colour_from_neighbours rt G node node_colours of
            Inl e \<Rightarrow> Inl e
          | Inr new_colour \<Rightarrow>
             (let updated_colour_set = new_colour_from_colour_pair rt old_colour new_colour
              in refine_nodes rt G node_colours rest
                   (AList.update node updated_colour_set new_node_colours))))"

fun refine_rounds ::
  "pyrt \<Rightarrow> graph \<Rightarrow> nat \<Rightarrow> (node, colour) pydict \<Rightarrow> (colour, int) pydict
     \<Rightarrow> error + (colour, int) pydict" where
  \<comment> \<open>the outer loop \<open>for _ in range(num_iterations)\<close>, with the rounds left to run\<close>
  "refine_rounds rt G 0 node_colours colour_counts = Inr colour_counts"
| "refine_rounds rt G (Suc k) node_colours colour_counts =
     (case refine_nodes rt G node_colours (nodes G) [] of
        Inl e \<Rightarrow> Inl e
      | Inr new_node_colours \<Rightarrow>
          refine_rounds rt G k new_node_colours
            (update_colour_counts colour_counts new_node_colours))"

definition compute_colour_counts :: "pyrt \<Rightarrow> graph \<Rightarrow> int \<Rightarrow> error + (colour, int) pydict" where
  \<comment> \<open>\<open>range(num_iterations)\<close> is empty for a negative argument\<close>
  "compute_colour_counts rt G num_iterations =
     (let node_colours = get_initial_colours rt G;
          colour_counts = update_colour_counts [] node_colours
      in refine_rounds rt G (nat num_iterations) node_colours colour_counts)"

definition compute_wlgk_from_colour_counts ::
  "pyrt \<Rightarrow> (colour, int) pydict \<Rightarrow> (colour, int) pydict \<Rightarrow> error + npfloat" where
  \<comment> \<open>the two norms are taken in the order of the source; the first exception ends the call\<close>
  "compute_wlgk_from_colour_counts rt g1_colour_count g2_colour_count =
     (let union_colours =
            set_union_order rt (dict_keys g1_colour_count) (dict_keys g2_colour_count);
          g1_colour_vector = map (\<lambda>c. dict_get g1_colour_count c 0) union_colours;
          g2_colour_vector = map (\<lambda>c. dict_get g2_colour_count c 0) union_colours
      in case np_linalg_norm rt g1_colour_vector of
           Inl e \<Rightarrow> Inl e
         | Inr norm_1 \<Rightarrow>
            (let norm_g1_colour_vector =
                   map (\<lambda>x. np_true_divide rt x norm_1) g1_colour_vector
             in case np_linalg_norm rt g2_colour_vector of
                  Inl e \<Rightarrow> Inl e
                | Inr norm_2 \<Rightarrow>
                   (let norm_g2_colour_vector =
                          map (\<lambda>x. np_true_divide rt x norm_2) g2_colour_vector
                    in Inr (np_dot rt norm_g1_colour_vector norm_g2_colour_vector))))"

definition wlgk :: "pyrt \<Rightarrow> graph \<Rightarrow> graph \<Rightarrow> int \<Rightarrow> string list \<times> (error + npfloat)" where
  \<comment> \<open>the lines printed, and the value returned or the exception raised\<close>
  "wlgk rt G1 G2 num_iterations =
     (if length (nodes G1) = 0 \<or> length (nodes G2) = 0
      then ([''Warning: One or both graphs have no nodes. Returning 1.0.''], Inr (Fin 1))
      else (case compute_colour_counts rt G1 num_iterations of
              Inl e \<Rightarrow> ([], Inl e)
            | Inr g1_colour_count \<Rightarrow>
               (case compute_colour_counts rt G2 num_iterations of
                  Inl e \<Rightarrow> ([], Inl e)
                | Inr g2_colour_count \<Rightarrow>
                   ([], compute_wlgk_from_colour_counts rt
                          g1_colour_count g2_colour_count))))"

section \<open>Notions used to state and prove the properties\<close>

text \<open>
  \<open>adj_closed G N v\<close>: the nodes adjacent to \<open>v\<close>, in the directions the module reads,
  all lie in \<open>N\<close>.
\<close>

definition adj_closed :: "graph \<Rightarrow> node set \<Rightarrow> node \<Rightarrow> bool" where
  "adj_closed G N v \<longleftrightarrow>
     (if is_directed G then set (predecessors G v) \<subseteq> N \<and> set (successors G v) \<subseteq> N
      else set (neighbors G v) \<subseteq> N)"

text \<open>A histogram as the accumulator leaves it for a graph with nodes: not empty, every count at least 1.\<close>

definition pos_hist :: "(colour, int) pydict \<Rightarrow> bool" where
  "pos_hist cc \<longleftrightarrow> cc \<noteq> [] \<and> list_all (\<lambda>(c, k). 1 \<le> k) cc"

text \<open>
  The Euclidean norm in the words of the specification: the square root of the sum of
  the squares, as a real number. The value numpy computes for it is \<open>np_linalg_norm\<close>.
\<close>

definition spec_euclidean_norm :: "int list \<Rightarrow> real" where
  "spec_euclidean_norm v = sqrt (\<Sum>x\<leftarrow>v. (real_of_int x)\<^sup>2)"

text \<open>
  The initial colour in the words of the specification: the hash of the degree of a node
  of an undirected graph, the hash of the pair (in-degree, out-degree) in a directed one.
\<close>

definition spec_initial_colour :: "pyrt \<Rightarrow> graph \<Rightarrow> node \<Rightarrow> colour" where
  "spec_initial_colour rt G v =
     (if is_directed G then hash_tuple rt [in_degree G v, out_degree G v]
      else hash_int rt (degree G v))"

text \<open>
  Concrete inputs. The sample runtime iterates a set in first-occurrence order, hashes an
  integer to itself and a tuple by a polynomial, raises \<open>TypeError\<close> on integers beyond
  \<open>int64\<close> and otherwise computes without rounding, with the IEEE 754 rules for zero
  divisors, infinities and NaN. It is one runtime that meets \<open>set_order_ok\<close> and
  \<open>numpy_ok\<close>; the properties below are proved for every such runtime and only
  instantiated at this one. The graphs are those of the module's test file (the cycles
  on three and on four nodes, directed when the flag is set, and the graph without
  nodes).
\<close>

fun exact_mul :: "npfloat \<Rightarrow> npfloat \<Rightarrow> npfloat" where
  "exact_mul (Fin a) (Fin b) = Fin (a * b)"
| "exact_mul (Fin a) (Inf s) = (if a = 0 then NaN else Inf (s = (0 < a)))"
| "exact_mul (Inf s) (Fin a) = (if a = 0 then NaN else Inf (s = (0 < a)))"
| "exact_mul (Inf s) (Inf t) = Inf (s = t)"
| "exact_mul NaN _ = NaN"
| "exact_mul _ NaN = NaN"

fun exact_add :: "npfloat \<Rightarrow> npfloat \<Rightarrow> npfloat" where
  "exact_add (Fin a) (Fin b) = Fin (a + b)"
| "exact_add (Fin a) (Inf s) = Inf s"
| "exact_add (Inf s) (Fin a) = Inf s"
| "exact_add (Inf s) (Inf t) = (if s = t then Inf s else NaN)"
| "exact_add NaN _ = NaN"
| "exact_add _ NaN = NaN"

fun exact_div :: "real \<Rightarrow> npfloat \<Rightarrow> npfloat" where
  "exact_div x (Fin y) = (if y \<noteq> 0 then Fin (x / y) else if x = 0 then NaN else Inf (0 < x))"
| "exact_div x (Inf s) = Fin 0"
| "exact_div x NaN = NaN"

definition sample_norm :: "int list \<Rightarrow> error + npfloat" where
  "sample_norm v =
     (if list_all in_int64 v then Inr (Fin (spec_euclidean_norm v)) else Inl TypeError)"

definition sample_dot :: "npfloat list \<Rightarrow> npfloat list \<Rightarrow> npfloat" where
  "sample_dot a b = foldl exact_add (Fin 0) (map2 exact_mul a b)"

definition sample_rt :: pyrt where
  "sample_rt = \<lparr> hash_int = (\<lambda>n. n),
             hash_tuple = (\<lambda>xs. foldl (\<lambda>a x. 31 * a + x) 7 xs),
             set_union_order = (\<lambda>ks1 ks2. remdups (ks1 @ ks2)),
             np_linalg_norm = sample_norm,
             np_true_divide = (\<lambda>x r. exact_div (real_of_int x) r),
             np_dot = sample_dot \<rparr>"

definition cycle3 :: "bool \<Rightarrow> graph" where
  "cycle3 d = \<lparr> is_directed = d, nodes = [1, 2, 3],
       degree = (\<lambda>v. 2), in_degree = (\<lambda>v. 1), out_degree = (\<lambda>v. 1),
       neighbors = (\<lambda>v. if v = 1 then [2, 3] else if v = 2 then [1, 3] else [2, 1]),
       predecessors = (\<lambda>v. if v = 1 then [3] else if v = 2 then [1] else [2]),
       successors = (\<lambda>v. if v = 1 then [2] else if v = 2 then [3] else [1]) \<rparr>"

definition cycle4 :: "bool \<Rightarrow> graph" where
  "cycle4 d = \<lparr> is_directed = d, nodes = [1, 2, 3, 4],
       degree = (\<lambda>v. 2), in_degree = (\<lambda>v. 1), out_degree = (\<lambda>v. 1),
       neighbors = (\<lambda>v. if v = 1 then [2, 4] else if v = 2 then [1, 3]
                          else if v = 3 then [2, 4] else [3, 1]),
       predecessors = (\<lambda>v. if v = 1 then [4] else if v = 2 then [1]
                             else if v = 3 then [2] else [3]),
       successors = (\<lambda>v. if v = 1 then [2] else if v = 2 then [3]
                           else if v = 3 then [4] else [1]) \<rparr>"

definition empty_graph :: "bool \<Rightarrow> graph" where
  "empty_graph d = \<lparr> is_directed = d, nodes = [],
       degree = (\<lambda>v. 0), in_degree = (\<lambda>v. 0), out_degree = (\<lambda>v. 0),
       neighbors = (\<lambda>v. []), predecessors = (\<lambda>v. []), successors = (\<lambda>v. []) \<rparr>"

section \<open>Dictionaries and the histogram accumulator\<close>

lemma update_fresh: "k \<notin> fst ` set al \<Longrightarrow> AList.update k v al = al @ [(k, v)]"
  by (induction al) auto

lemma foldl_update_distinct:
  "distinct (map fst acc @ map fst kvs) \<Longrightarrow>
   foldl (\<lambda>d (k, v). AList.update k v d) acc kvs = acc @ kvs"
proof (induction kvs arbitrary: acc)
  case Nil
  then show ?case by simp
next
  case (Cons kv kvs)
  obtain k v where kv: "kv = (k, v)" by (cases kv)
  from Cons.prems have fresh: "k \<notin> fst ` set acc" by (auto simp: kv)
  from Cons.prems have "distinct (map fst (acc @ [(k, v)]) @ map fst kvs)"
    by (auto simp: kv)
  from Cons.IH [OF this] show ?case
    by (simp add: kv update_fresh [OF fresh])
qed

lemma dict_comp_distinct: "distinct (map fst kvs) \<Longrightarrow> dict_comp kvs = kvs"
  using foldl_update_distinct [of "[]" kvs] by (simp add: dict_comp_def)

lemma get_initial_colours_distinct:
  "distinct (nodes G) \<Longrightarrow>
   get_initial_colours rt G =
     map (\<lambda>node. (node, if \<not> is_directed G then hash_int rt (degree G node)
                        else hash_tuple rt [in_degree G node, out_degree G node])) (nodes G)"
  by (simp add: get_initial_colours_def dict_comp_distinct comp_def)

lemma keys_get_initial_colours:
  "distinct (nodes G) \<Longrightarrow> map fst (get_initial_colours rt G) = nodes G"
  by (simp add: get_initial_colours_distinct comp_def)

lemma sum_update_count:
  "sum_list (map snd (AList.update c (dict_get cc c 0 + 1) cc)) = sum_list (map snd cc) + (1::int)"
  by (induction cc) (auto simp: dict_get_def)

lemma sum_foldl_counts:
  "sum_list (map snd (foldl (\<lambda>cc colour. AList.update colour (dict_get cc colour 0 + 1) cc) cc cs))
     = sum_list (map snd cc) + int (length cs)"
  by (induction cs arbitrary: cc) (simp_all add: sum_update_count)

lemma sum_update_colour_counts:
  "sum_list (dict_values (update_colour_counts cc ncs)) = sum_list (dict_values cc) + int (length ncs)"
  by (simp add: update_colour_counts_def dict_values_def sum_foldl_counts)

section \<open>One refinement round on a well-formed graph\<close>

lemma lookup_all_ok:
  "set ns \<subseteq> fst ` set ncs \<Longrightarrow> \<exists>cs. lookup_all ncs ns = Inr cs"
proof (induction ns)
  case Nil
  then show ?case by simp
next
  case (Cons n ns)
  then obtain cs where cs: "lookup_all ncs ns = Inr cs" by auto
  from Cons.prems have "n \<in> fst ` set ncs" by simp
  then obtain c where "map_of ncs n = Some c"
    by (metis domD dom_map_of_conv_image_fst)
  with cs show ?case by (simp add: dict_lookup_def)
qed

lemma new_colour_from_neighbours_ok:
  assumes "adj_closed G (fst ` set ncs) v"
  shows "\<exists>c. new_colour_from_neighbours rt G v ncs = Inr c"
proof (cases "is_directed G")
  case True
  with assms obtain ps ss where
    "lookup_all ncs (predecessors G v) = Inr ps" "lookup_all ncs (successors G v) = Inr ss"
    using lookup_all_ok unfolding adj_closed_def by (metis (full_types))
  with True show ?thesis by (simp add: new_colour_from_neighbours_def)
next
  case False
  with assms obtain cs where "lookup_all ncs (neighbors G v) = Inr cs"
    using lookup_all_ok unfolding adj_closed_def by (metis (full_types))
  with False show ?thesis by (simp add: new_colour_from_neighbours_def)
qed

lemma refine_nodes_ok:
  assumes "set vs \<subseteq> fst ` set ncs" "\<forall>v\<in>set vs. adj_closed G (fst ` set ncs) v"
    "distinct (map fst acc @ vs)"
  shows "\<exists>r. refine_nodes rt G ncs vs acc = Inr r \<and> map fst r = map fst acc @ vs"
  using assms
proof (induction vs arbitrary: acc)
  case Nil
  then show ?case by simp
next
  case (Cons v vs)
  from Cons.prems(1) have "v \<in> fst ` set ncs" by simp
  then obtain old where old: "dict_lookup ncs v = Inr old"
    by (metis domD dom_map_of_conv_image_fst dict_lookup_def option.simps(5))
  from Cons.prems(2) obtain new where new: "new_colour_from_neighbours rt G v ncs = Inr new"
    using new_colour_from_neighbours_ok by (metis list.set_intros(1))
  let ?acc = "AList.update v (new_colour_from_colour_pair rt old new) acc"
  from Cons.prems(3) have fresh: "v \<notin> fst ` set acc" by auto
  have acc': "?acc = acc @ [(v, new_colour_from_colour_pair rt old new)]"
    by (rule update_fresh [OF fresh])
  have "distinct (map fst ?acc @ vs)" using Cons.prems(3) by (simp add: acc')
  moreover have "set vs \<subseteq> fst ` set ncs" "\<forall>v\<in>set vs. adj_closed G (fst ` set ncs) v"
    using Cons.prems by auto
  ultimately obtain r where "refine_nodes rt G ncs vs ?acc = Inr r" "map fst r = map fst ?acc @ vs"
    using Cons.IH by blast
  then show ?case by (simp add: old new acc')
qed

section \<open>Counts stay positive; the refinement loop\<close>

lemma update_count_ge1:
  "list_all (\<lambda>(c, k). 1 \<le> k) cc \<Longrightarrow>
   list_all (\<lambda>(c, k). (1::int) \<le> k) (AList.update c (dict_get cc c 0 + 1) cc)"
  by (induction cc) (auto simp: dict_get_def)

lemma update_not_Nil: "AList.update k v al \<noteq> []"
  by (cases al) auto

lemma foldl_counts_ge1:
  "list_all (\<lambda>(c, k). 1 \<le> k) cc \<Longrightarrow>
   list_all (\<lambda>(c, k). (1::int) \<le> k)
     (foldl (\<lambda>cc colour. AList.update colour (dict_get cc colour 0 + 1) cc) cc cs)"
  by (induction cs arbitrary: cc) (simp_all add: update_count_ge1)

lemma foldl_counts_not_Nil:
  "cc \<noteq> [] \<or> cs \<noteq> [] \<Longrightarrow>
   foldl (\<lambda>cc colour. AList.update colour (dict_get cc colour 0 + 1) cc) cc cs \<noteq> []"
  by (induction cs arbitrary: cc) (simp_all add: update_not_Nil)

lemma update_colour_counts_ge1:
  "list_all (\<lambda>(c, k). 1 \<le> k) cc \<Longrightarrow> list_all (\<lambda>(c, k). 1 \<le> k) (update_colour_counts cc ncs)"
  by (simp add: update_colour_counts_def foldl_counts_ge1)

lemma update_colour_counts_not_Nil:
  "cc \<noteq> [] \<or> ncs \<noteq> [] \<Longrightarrow> update_colour_counts cc ncs \<noteq> []"
  by (simp add: update_colour_counts_def dict_values_def foldl_counts_not_Nil)

lemma pos_hist_update: "pos_hist cc \<Longrightarrow> pos_hist (update_colour_counts cc ncs)"
  by (simp add: pos_hist_def update_colour_counts_ge1 update_colour_counts_not_Nil)

lemma pos_hist_first: "ncs \<noteq> [] \<Longrightarrow> pos_hist (update_colour_counts [] ncs)"
  by (simp add: pos_hist_def update_colour_counts_ge1 update_colour_counts_not_Nil)

lemma wf_graph_adj_closed:
  "wf_graph G \<Longrightarrow> v \<in> set (nodes G) \<Longrightarrow> adj_closed G (set (nodes G)) v"
  by (auto simp: wf_graph_def adj_closed_def list_all_iff)

lemma refine_round_ok:
  assumes "wf_graph G" "map fst ncs = nodes G"
  shows "\<exists>r. refine_nodes rt G ncs (nodes G) [] = Inr r \<and> map fst r = nodes G"
proof -
  have k: "fst ` set ncs = set (nodes G)" using assms(2) by (metis set_map)
  have "distinct (nodes G)" using assms(1) by (simp add: wf_graph_def)
  then show ?thesis
    using refine_nodes_ok [of "nodes G" ncs G "[]" rt] wf_graph_adj_closed [OF assms(1)]
    by (simp add: k)
qed

lemma refine_rounds_ok:
  assumes "wf_graph G"
  shows "map fst ncs = nodes G \<Longrightarrow>
     \<exists>cc'. refine_rounds rt G k ncs cc = Inr cc'
        \<and> sum_list (dict_values cc') = sum_list (dict_values cc) + int k * int (length (nodes G))
        \<and> (pos_hist cc \<longrightarrow> pos_hist cc')"
proof (induction k arbitrary: ncs cc)
  case 0
  then show ?case by simp
next
  case (Suc k)
  from refine_round_ok [OF assms Suc.prems] obtain r where
    r: "refine_nodes rt G ncs (nodes G) [] = Inr r" "map fst r = nodes G" by blast
  from Suc.IH [OF r(2), of "update_colour_counts cc r"] obtain cc' where
    cc': "refine_rounds rt G k r (update_colour_counts cc r) = Inr cc'"
      "sum_list (dict_values cc') =
         sum_list (dict_values (update_colour_counts cc r)) + int k * int (length (nodes G))"
      "pos_hist (update_colour_counts cc r) \<longrightarrow> pos_hist cc'" by blast
  have len: "length r = length (nodes G)" using r(2) by (metis length_map)
  show ?case
    using cc' by (simp add: r(1) sum_update_colour_counts len pos_hist_update algebra_simps)
qed

lemma compute_colour_counts_ok:
  assumes "wf_graph G"
  shows "\<exists>cc. compute_colour_counts rt G n = Inr cc
     \<and> sum_list (dict_values cc) = (int (nat n) + 1) * int (length (nodes G))
     \<and> (nodes G \<noteq> [] \<longrightarrow> pos_hist cc)"
proof -
  have d: "distinct (nodes G)" using assms by (simp add: wf_graph_def)
  let ?ncs = "get_initial_colours rt G"
  have keys: "map fst ?ncs = nodes G" by (rule keys_get_initial_colours [OF d])
  have len: "length ?ncs = length (nodes G)" using keys by (metis length_map)
  from refine_rounds_ok [OF assms keys, of rt "nat n" "update_colour_counts [] ?ncs"]
  obtain cc where cc: "refine_rounds rt G (nat n) ?ncs (update_colour_counts [] ?ncs) = Inr cc"
    "sum_list (dict_values cc) = sum_list (dict_values (update_colour_counts [] ?ncs))
        + int (nat n) * int (length (nodes G))"
    "pos_hist (update_colour_counts [] ?ncs) \<longrightarrow> pos_hist cc" by blast
  have "nodes G \<noteq> [] \<Longrightarrow> ?ncs \<noteq> []" using len by auto
  then have "nodes G \<noteq> [] \<longrightarrow> pos_hist cc" using cc(3) pos_hist_first by blast
  moreover have "sum_list (dict_values (update_colour_counts [] ?ncs)) = int (length (nodes G))"
    by (simp add: sum_update_colour_counts len) (simp add: dict_values_def)
  then have "sum_list (dict_values cc) = (int (nat n) + 1) * int (length (nodes G))"
    using cc(2) by (simp add: algebra_simps)
  ultimately show ?thesis using cc(1) by (simp add: compute_colour_counts_def Let_def)
qed

section \<open>What numpy is assumed to do\<close>

lemma numpy_norm_returns:
  "numpy_ok rt \<Longrightarrow> list_all in_int64 v \<Longrightarrow> \<exists>r. np_linalg_norm rt v = Inr r"
  unfolding numpy_ok_def by blast

lemma numpy_norm_zero:
  "numpy_ok rt \<Longrightarrow> list_all (\<lambda>x. x = 0) v \<Longrightarrow> np_linalg_norm rt v = Inr (Fin 0)"
  unfolding numpy_ok_def by blast

lemma numpy_norm_at_least_one:
  "numpy_ok rt \<Longrightarrow> np_linalg_norm rt v = Inr r \<Longrightarrow> \<not> list_all (\<lambda>x. x = 0) v \<Longrightarrow> at_least_one r"
  unfolding numpy_ok_def by blast

lemma numpy_zero_by_zero: "numpy_ok rt \<Longrightarrow> np_true_divide rt 0 (Fin 0) = NaN"
  unfolding numpy_ok_def by blast

lemma numpy_divide_small:
  "numpy_ok rt \<Longrightarrow> 0 \<le> x \<Longrightarrow> x < 2 ^ 63 \<Longrightarrow> at_least_one r
     \<Longrightarrow> small_nonneg (np_true_divide rt x r)"
  unfolding numpy_ok_def by blast

lemma numpy_dot_empty: "numpy_ok rt \<Longrightarrow> np_dot rt [] [] = Fin 0"
  unfolding numpy_ok_def by blast

lemma numpy_dot_NaN:
  "numpy_ok rt \<Longrightarrow> length a = length b \<Longrightarrow> NaN \<in> set a \<or> NaN \<in> set b
     \<Longrightarrow> np_dot rt a b = NaN"
  unfolding numpy_ok_def by blast

lemma numpy_dot_finite:
  "numpy_ok rt \<Longrightarrow> length a = length b \<Longrightarrow> length a < 2 ^ 64
     \<Longrightarrow> list_all small_nonneg a \<Longrightarrow> list_all small_nonneg b \<Longrightarrow> \<exists>s. np_dot rt a b = Fin s"
  unfolding numpy_ok_def by blast

section \<open>Count vectors of histograms with positive counts\<close>


lemma hist_vector_nonzero:
  assumes "pos_hist cc" "set (dict_keys cc) \<subseteq> set u"
  shows "\<not> list_all (\<lambda>x. x = 0) (map (\<lambda>c. dict_get cc c 0) u)"
proof -
  from assms(1) obtain c0 k0 rest where cc: "cc = (c0, k0) # rest"
    by (cases cc) (auto simp: pos_hist_def)
  with assms(1) have "1 \<le> k0" by (simp add: pos_hist_def)
  then have "dict_get cc c0 0 \<noteq> 0" by (simp add: dict_get_def cc)
  moreover have "c0 \<in> set u" using assms(2) by (auto simp: cc dict_keys_def)
  ultimately show ?thesis by (auto simp: list_all_iff)
qed

lemma count_le_sum:
  fixes cc :: "(colour, int) pydict"
  shows "list_all (\<lambda>(c, k). 1 \<le> k) cc \<Longrightarrow> (c, k) \<in> set cc \<Longrightarrow> k \<le> sum_list (map snd cc)"
proof (induction cc)
  case Nil
  then show ?case by simp
next
  case (Cons p cc)
  have "\<forall>q\<in>set cc. 1 \<le> snd q" using Cons.prems(1) by (auto simp: list_all_iff)
  then have rest: "0 \<le> sum_list (map snd cc)"
    by (intro sum_list_nonneg) force
  show ?case
  proof (cases "(c, k) = p")
    case True
    then show ?thesis using rest by auto
  next
    case False
    with Cons have "k \<le> sum_list (map snd cc)" by auto
    moreover have "1 \<le> snd p" using Cons.prems(1) by (cases p) simp
    ultimately show ?thesis by simp
  qed
qed

lemma length_le_sum:
  "list_all (\<lambda>(c, k). (1::int) \<le> k) cc \<Longrightarrow> int (length cc) \<le> sum_list (map snd cc)"
  by (induction cc) auto

lemma hist_entry_bounds:
  fixes cc :: "(colour, int) pydict"
  assumes "list_all (\<lambda>(c, k). 1 \<le> k) cc"
  shows "0 \<le> dict_get cc c 0 \<and> dict_get cc c 0 \<le> max 0 (sum_list (dict_values cc))"
proof (cases "map_of cc c")
  case None
  then show ?thesis by (simp add: dict_get_def)
next
  case (Some k)
  then have mem: "(c, k) \<in> set cc" by (rule map_of_SomeD)
  with assms have "1 \<le> k" by (auto simp: list_all_iff)
  moreover from count_le_sum [OF assms mem] have "k \<le> sum_list (dict_values cc)"
    by (simp add: dict_values_def)
  ultimately show ?thesis using Some by (simp add: dict_get_def)
qed

lemma hist_vector_in_range:
  assumes "pos_hist cc" "sum_list (dict_values cc) < 2 ^ 63"
  shows "list_all (\<lambda>x. 0 \<le> x \<and> x < 2 ^ 63) (map (\<lambda>c. dict_get cc c 0) u)"
proof -
  have ge1: "list_all (\<lambda>(c, k). 1 \<le> k) cc" using assms(1) by (simp add: pos_hist_def)
  have "0 \<le> dict_get cc c 0 \<and> dict_get cc c 0 < 2 ^ 63" for c
    using hist_entry_bounds [OF ge1, of c] assms(2) by auto
  then show ?thesis by (simp add: list_all_iff)
qed

lemma union_order_length:
  assumes "set_order_ok rt"
  shows "length (set_union_order rt ks1 ks2) \<le> length ks1 + length ks2"
proof -
  have d: "distinct (set_union_order rt ks1 ks2)"
    and s: "set (set_union_order rt ks1 ks2) = set ks1 \<union> set ks2"
    using assms by (simp_all add: set_order_ok_def)
  have "length (set_union_order rt ks1 ks2) = card (set ks1 \<union> set ks2)"
    using distinct_card [OF d] by (simp add: s)
  also have "\<dots> \<le> card (set ks1) + card (set ks2)" by (rule card_Un_le)
  also have "\<dots> \<le> length ks1 + length ks2"
    by (intro add_mono card_length)
  finally show ?thesis .
qed

lemma union_order_keys:
  assumes "set_order_ok rt"
  shows "set (dict_keys cc1) \<subseteq> set (set_union_order rt (dict_keys cc1) (dict_keys cc2))"
    and "set (dict_keys cc2) \<subseteq> set (set_union_order rt (dict_keys cc1) (dict_keys cc2))"
  using assms by (simp_all add: set_order_ok_def)

lemma hist_norm:
  assumes "numpy_ok rt" "pos_hist cc" "sum_list (dict_values cc) < 2 ^ 63"
    "set (dict_keys cc) \<subseteq> set u"
  shows "\<exists>r. np_linalg_norm rt (map (\<lambda>c. dict_get cc c 0) u) = Inr r \<and> at_least_one r"
proof -
  let ?v = "map (\<lambda>c. dict_get cc c 0) u"
  from hist_vector_in_range [OF assms(2,3), of u] have "list_all in_int64 ?v"
    by (auto simp: list_all_iff in_int64_def)
  from numpy_norm_returns [OF assms(1) this] obtain r where r: "np_linalg_norm rt ?v = Inr r" ..
  from numpy_norm_at_least_one [OF assms(1) r hist_vector_nonzero [OF assms(2,4)]]
  have "at_least_one r" .
  with r show ?thesis by blast
qed

lemma hist_normalised_small:
  assumes "numpy_ok rt" "pos_hist cc" "sum_list (dict_values cc) < 2 ^ 63" "at_least_one r"
  shows "list_all small_nonneg (map (\<lambda>x. np_true_divide rt x r) (map (\<lambda>c. dict_get cc c 0) u))"
  using hist_vector_in_range [OF assms(2,3), of u] numpy_divide_small [OF assms(1) _ _ assms(4)]
  by (simp add: list_all_iff)

lemma comparator_finite:
  assumes np: "numpy_ok rt" and so: "set_order_ok rt"
    and p1: "pos_hist cc1" and p2: "pos_hist cc2"
    and s1: "sum_list (dict_values cc1) < 2 ^ 63" and s2: "sum_list (dict_values cc2) < 2 ^ 63"
  shows "\<exists>s. compute_wlgk_from_colour_counts rt cc1 cc2 = Inr (Fin s)"
proof -
  define u where "u = set_union_order rt (dict_keys cc1) (dict_keys cc2)"
  let ?v1 = "map (\<lambda>c. dict_get cc1 c 0) u" and ?v2 = "map (\<lambda>c. dict_get cc2 c 0) u"
  have k1: "set (dict_keys cc1) \<subseteq> set u" and k2: "set (dict_keys cc2) \<subseteq> set u"
    unfolding u_def by (rule union_order_keys [OF so])+
  from hist_norm [OF np p1 s1 k1] obtain r1 where
    r1: "np_linalg_norm rt ?v1 = Inr r1" "at_least_one r1" by blast
  from hist_norm [OF np p2 s2 k2] obtain r2 where
    r2: "np_linalg_norm rt ?v2 = Inr r2" "at_least_one r2" by blast
  let ?n1 = "map (\<lambda>x. np_true_divide rt x r1) ?v1" and ?n2 = "map (\<lambda>x. np_true_divide rt x r2) ?v2"
  have sm1: "list_all small_nonneg ?n1" by (rule hist_normalised_small [OF np p1 s1 r1(2)])
  have sm2: "list_all small_nonneg ?n2" by (rule hist_normalised_small [OF np p2 s2 r2(2)])
  have "int (length cc1) < 2 ^ 63" "int (length cc2) < 2 ^ 63"
    using length_le_sum [of cc1] length_le_sum [of cc2] p1 p2 s1 s2
    by (simp_all add: pos_hist_def dict_values_def)
  moreover have "length u \<le> length cc1 + length cc2"
    using union_order_length [OF so, of "dict_keys cc1" "dict_keys cc2"]
    by (simp add: u_def dict_keys_def)
  ultimately have "int (length u) < 2 ^ 64" by simp
  then have len: "length ?n1 < 2 ^ 64" by (simp add: of_nat_less_numeral_power_cancel_iff)
  have "length ?n1 = length ?n2" by simp
  from numpy_dot_finite [OF np this len sm1 sm2] obtain s where "np_dot rt ?n1 ?n2 = Fin s" ..
  then have "compute_wlgk_from_colour_counts rt cc1 cc2 = Inr (Fin s)"
    by (simp add: compute_wlgk_from_colour_counts_def Let_def u_def [symmetric] r1(1) r2(1))
  then show ?thesis ..
qed

section \<open>The concrete inputs are well formed\<close>

lemma sample_rt_ok: "set_order_ok sample_rt"
  by (simp add: set_order_ok_def sample_rt_def)

lemma spec_norm_zero: "list_all (\<lambda>x. x = 0) v \<Longrightarrow> spec_euclidean_norm v = 0"
  by (induction v) (simp_all add: spec_euclidean_norm_def)

lemma zeros_in_int64: "list_all (\<lambda>x. x = 0) v \<Longrightarrow> list_all in_int64 v"
  by (auto simp: list_all_iff in_int64_def)

lemma spec_norm_ge_one:
  assumes "\<not> list_all (\<lambda>x. x = 0) v"
  shows "1 \<le> spec_euclidean_norm v"
proof -
  let ?sq = "map (\<lambda>x. (real_of_int x)\<^sup>2) v"
  from assms obtain x where x: "x \<in> set v" "x \<noteq> 0" by (auto simp: list_all_iff)
  then have "1 \<le> x\<^sup>2" by (metis abs_le_square_iff abs_one linorder_not_less one_power2 zabs_less_one_iff)
  then have "1 \<le> (real_of_int x)\<^sup>2"
    by (metis of_int_1_le_iff of_int_power)
  moreover have "(real_of_int x)\<^sup>2 \<le> sum_list ?sq"
    by (rule member_le_sum_list) (use x(1) in auto)
  ultimately have "1 \<le> sum_list ?sq" by linarith
  then show ?thesis by (simp add: spec_euclidean_norm_def)
qed

lemma foldl_exact_add_NaN: "foldl exact_add NaN xs = NaN"
  by (induction xs) simp_all

lemma exact_add_NaN_right: "exact_add x NaN = NaN"
  by (cases x) simp_all

lemma exact_mul_NaN_right: "exact_mul x NaN = NaN"
  by (cases x) simp_all

lemma foldl_exact_add_has_NaN: "NaN \<in> set xs \<Longrightarrow> foldl exact_add acc xs = NaN"
  by (induction xs arbitrary: acc) (auto simp: exact_add_NaN_right foldl_exact_add_NaN)

lemma map2_exact_mul_has_NaN:
  "length a = length b \<Longrightarrow> NaN \<in> set a \<or> NaN \<in> set b \<Longrightarrow> NaN \<in> set (map2 exact_mul a b)"
  by (induction a b rule: list_induct2) (auto simp: exact_mul_NaN_right)

lemma sample_dot_NaN:
  "length a = length b \<Longrightarrow> NaN \<in> set a \<or> NaN \<in> set b \<Longrightarrow> sample_dot a b = NaN"
  unfolding sample_dot_def by (rule foldl_exact_add_has_NaN) (rule map2_exact_mul_has_NaN)

lemma small_nonneg_Fin: "small_nonneg x \<Longrightarrow> \<exists>q. x = Fin q"
  by (cases x) simp_all

lemma foldl_exact_add_finite:
  "length a = length b \<Longrightarrow> list_all small_nonneg a \<Longrightarrow> list_all small_nonneg b
     \<Longrightarrow> \<exists>s. foldl exact_add (Fin acc) (map2 exact_mul a b) = Fin s"
proof (induction a b arbitrary: acc rule: list_induct2)
  case Nil
  then show ?case by simp
next
  case (Cons x xs y ys)
  from Cons.prems have "small_nonneg x" "small_nonneg y" by simp_all
  then obtain p q where "x = Fin p" "y = Fin q"
    using small_nonneg_Fin by blast
  with Cons show ?case by simp
qed

lemma sample_divide_small:
  assumes "0 \<le> x" "x < 2 ^ 63" "at_least_one r"
  shows "small_nonneg (exact_div (real_of_int x) r)"
proof (cases r)
  case (Fin t)
  with assms(3) have t: "1 \<le> t" by simp
  have x0: "0 \<le> real_of_int x" and x1: "real_of_int x \<le> 2 ^ 63"
    using assms(1,2) by (simp_all add: of_int_le_numeral_power_cancel_iff)
  have "real_of_int x / t \<le> real_of_int x / 1"
    using t x0 by (intro divide_left_mono) simp_all
  with x0 x1 t show ?thesis by (simp add: Fin)
next
  case (Inf s)
  then show ?thesis by simp
next
  case NaN
  with assms(3) show ?thesis by simp
qed

lemma sample_rt_numpy_ok: "numpy_ok sample_rt"
proof -
  have n1: "\<forall>v. list_all in_int64 v \<longrightarrow> (\<exists>r. sample_norm v = Inr r)"
    by (simp add: sample_norm_def)
  have n2: "\<forall>v. list_all (\<lambda>x. x = 0) v \<longrightarrow> sample_norm v = Inr (Fin 0)"
    by (simp add: sample_norm_def zeros_in_int64 spec_norm_zero)
  have n3: "\<forall>v r. sample_norm v = Inr r \<and> \<not> list_all (\<lambda>x. x = 0) v \<longrightarrow> at_least_one r"
    by (auto simp: sample_norm_def spec_norm_ge_one split: if_splits)
  have n4: "exact_div (real_of_int 0) (Fin 0) = NaN" by simp
  have n5: "\<forall>x r. 0 \<le> x \<and> x < 2 ^ 63 \<and> at_least_one r
              \<longrightarrow> small_nonneg (exact_div (real_of_int x) r)"
    using sample_divide_small by blast
  have n6: "sample_dot [] [] = Fin 0" by (simp add: sample_dot_def)
  have n7: "\<forall>a b. length a = length b \<and> (NaN \<in> set a \<or> NaN \<in> set b) \<longrightarrow> sample_dot a b = NaN"
    using sample_dot_NaN by blast
  have n8: "\<forall>a b. length a = length b \<and> length a < 2 ^ 64
              \<and> list_all small_nonneg a \<and> list_all small_nonneg b
            \<longrightarrow> (\<exists>s. sample_dot a b = Fin s)"
    unfolding sample_dot_def using foldl_exact_add_finite by blast
  show ?thesis
    unfolding numpy_ok_def sample_rt_def
    using n1 n2 n3 n4 n5 n6 n7 n8 by simp
qed

lemma wf_cycle3: "wf_graph (cycle3 d)"
  by (simp add: wf_graph_def cycle3_def)

lemma wf_cycle4: "wf_graph (cycle4 d)"
  by (simp add: wf_graph_def cycle4_def)

section \<open>The kernel on two graphs with nodes\<close>

lemma wlgk_nonempty:
  assumes "wf_graph G1" "wf_graph G2" "nodes G1 \<noteq> []" "nodes G2 \<noteq> []"
  obtains cc1 cc2 where
    "compute_colour_counts rt G1 n = Inr cc1" "compute_colour_counts rt G2 n = Inr cc2"
    "pos_hist cc1" "pos_hist cc2"
    "sum_list (dict_values cc1) = (int (nat n) + 1) * int (length (nodes G1))"
    "sum_list (dict_values cc2) = (int (nat n) + 1) * int (length (nodes G2))"
    "wlgk rt G1 G2 n = ([], compute_wlgk_from_colour_counts rt cc1 cc2)"
proof -
  from compute_colour_counts_ok [OF assms(1), of rt n] assms(3) obtain cc1 where
    c1: "compute_colour_counts rt G1 n = Inr cc1" "pos_hist cc1"
      "sum_list (dict_values cc1) = (int (nat n) + 1) * int (length (nodes G1))" by blast
  from compute_colour_counts_ok [OF assms(2), of rt n] assms(4) obtain cc2 where
    c2: "compute_colour_counts rt G2 n = Inr cc2" "pos_hist cc2"
      "sum_list (dict_values cc2) = (int (nat n) + 1) * int (length (nodes G2))" by blast
  have "wlgk rt G1 G2 n = ([], compute_wlgk_from_colour_counts rt cc1 cc2)"
    using assms(3,4) c1(1) c2(1) by (simp add: wlgk_def)
  with c1 c2 show ?thesis using that by blast
qed

section \<open>The comparator on a zero vector\<close>

lemma zero_vector_normalised:
  assumes "numpy_ok rt" "list_all (\<lambda>x. x = 0) v"
  shows "map (\<lambda>x. np_true_divide rt x (Fin 0)) v = map (\<lambda>x. NaN) v"
  using assms(2) numpy_zero_by_zero [OF assms(1)] by (auto simp: list_all_iff)

lemma comparator_first_zero:
  assumes np: "numpy_ok rt"
    and u: "u = set_union_order rt (dict_keys cc1) (dict_keys cc2)"
    and z: "list_all (\<lambda>x. x = 0) (map (\<lambda>c. dict_get cc1 c 0) u)"
    and r: "list_all in_int64 (map (\<lambda>c. dict_get cc2 c 0) u)"
  shows "compute_wlgk_from_colour_counts rt cc1 cc2 = Inr (if u = [] then Fin 0 else NaN)"
proof -
  let ?v1 = "map (\<lambda>c. dict_get cc1 c 0) u" and ?v2 = "map (\<lambda>c. dict_get cc2 c 0) u"
  from numpy_norm_returns [OF np r] obtain r2 where r2: "np_linalg_norm rt ?v2 = Inr r2" ..
  let ?n2 = "map (\<lambda>x. np_true_divide rt x r2) ?v2"
  have "compute_wlgk_from_colour_counts rt cc1 cc2
          = Inr (np_dot rt (map (\<lambda>x. np_true_divide rt x (Fin 0)) ?v1) ?n2)"
    by (simp add: compute_wlgk_from_colour_counts_def Let_def u [symmetric]
        numpy_norm_zero [OF np z] r2)
  also have "\<dots> = Inr (np_dot rt (map (\<lambda>x. NaN) ?v1) ?n2)"
    by (simp only: zero_vector_normalised [OF np z])
  finally have eq: "compute_wlgk_from_colour_counts rt cc1 cc2
          = Inr (np_dot rt (map (\<lambda>x. NaN) ?v1) ?n2)" .
  show ?thesis
  proof (cases "u = []")
    case True
    then show ?thesis by (simp add: eq numpy_dot_empty [OF np])
  next
    case False
    then have "NaN \<in> set (map (\<lambda>x. NaN) ?v1)" by (cases u) simp_all
    then have "np_dot rt (map (\<lambda>x. NaN) ?v1) ?n2 = NaN"
      by (intro numpy_dot_NaN [OF np]) simp_all
    with False show ?thesis by (simp add: eq)
  qed
qed

lemma comparator_second_zero:
  assumes np: "numpy_ok rt"
    and u: "u = set_union_order rt (dict_keys cc1) (dict_keys cc2)"
    and r: "list_all in_int64 (map (\<lambda>c. dict_get cc1 c 0) u)"
    and z: "list_all (\<lambda>x. x = 0) (map (\<lambda>c. dict_get cc2 c 0) u)"
  shows "compute_wlgk_from_colour_counts rt cc1 cc2 = Inr (if u = [] then Fin 0 else NaN)"
proof -
  let ?v1 = "map (\<lambda>c. dict_get cc1 c 0) u" and ?v2 = "map (\<lambda>c. dict_get cc2 c 0) u"
  from numpy_norm_returns [OF np r] obtain r1 where r1: "np_linalg_norm rt ?v1 = Inr r1" ..
  let ?n1 = "map (\<lambda>x. np_true_divide rt x r1) ?v1"
  have "compute_wlgk_from_colour_counts rt cc1 cc2
          = Inr (np_dot rt ?n1 (map (\<lambda>x. np_true_divide rt x (Fin 0)) ?v2))"
    by (simp add: compute_wlgk_from_colour_counts_def Let_def u [symmetric]
        numpy_norm_zero [OF np z] r1)
  also have "\<dots> = Inr (np_dot rt ?n1 (map (\<lambda>x. NaN) ?v2))"
    by (simp only: zero_vector_normalised [OF np z])
  finally have eq: "compute_wlgk_from_colour_counts rt cc1 cc2
          = Inr (np_dot rt ?n1 (map (\<lambda>x. NaN) ?v2))" .
  show ?thesis
  proof (cases "u = []")
    case True
    then show ?thesis by (simp add: eq numpy_dot_empty [OF np])
  next
    case False
    then have "NaN \<in> set (map (\<lambda>x. NaN) ?v2)" by (cases u) simp_all
    then have "np_dot rt ?n1 (map (\<lambda>x. NaN) ?v2) = NaN"
      by (intro numpy_dot_NaN [OF np]) simp_all
    with False show ?thesis by (simp add: eq)
  qed
qed

section \<open>The histogram of the initial colouring\<close>

lemma dict_get_update:
  "dict_get (AList.update k v al) c d = (if c = k then v else dict_get al c d)"
  by (simp add: dict_get_def update_conv')

lemma dict_get_foldl_counts:
  "dict_get (foldl (\<lambda>cc colour. AList.update colour (dict_get cc colour 0 + 1) cc) cc cs) c 0
     = dict_get cc c 0 + int (length (filter (\<lambda>x. x = c) cs))"
  by (induction cs arbitrary: cc) (simp_all add: dict_get_update)

lemma initial_histogram_counts:
  assumes "distinct (nodes G)"
  shows "dict_get (update_colour_counts [] (get_initial_colours rt G)) c 0
           = int (length (filter (\<lambda>v. spec_initial_colour rt G v = c) (nodes G)))"
proof -
  have "dict_values (get_initial_colours rt G) = map (spec_initial_colour rt G) (nodes G)"
    by (simp add: get_initial_colours_distinct [OF assms] dict_values_def comp_def
        spec_initial_colour_def)
  then show ?thesis
    by (simp add: update_colour_counts_def dict_get_foldl_counts filter_map comp_def)
      (simp add: dict_get_def)
qed

section \<open>The properties of the specification\<close>

text \<open>
  C3 (empty graph). When either graph has no node, \<open>wlgk\<close> prints its one-line notice and
  returns exactly 1.0, whatever the other graph, the hash functions and the number of
  iterations are: nothing is coloured, refined or compared, and nothing is raised, even
  for a graph on which a refinement round would raise.
\<close>

theorem wlgk_empty:
  assumes "nodes G1 = [] \<or> nodes G2 = []"
  shows "wlgk rt G1 G2 n =
           ([''Warning: One or both graphs have no nodes. Returning 1.0.''], Inr (Fin 1))"
  using assms by (auto simp: wlgk_def)

theorem wlgk_empty_witness:
  "(nodes (empty_graph True) = [] \<or> nodes (cycle3 True) = []) \<and>
   wlgk sample_rt (empty_graph True) (cycle3 True) 5 =
     ([''Warning: One or both graphs have no nodes. Returning 1.0.''], Inr (Fin 1))"
proof -
  have e: "nodes (empty_graph True) = [] \<or> nodes (cycle3 True) = []"
    by (simp add: empty_graph_def)
  from wlgk_empty [OF e, of sample_rt 5] e show ?thesis by blast
qed

text \<open>
  C4 (total count). For every well-formed graph and every \<open>num_iterations \<ge> 0\<close>, the
  histogram is computed without an exception and its counts add up to
  \<open>(num_iterations + 1)\<close> times the number of nodes.
\<close>

theorem colour_count_total:
  assumes "wf_graph G" "0 \<le> n"
  shows "\<exists>cc. compute_colour_counts rt G n = Inr cc
           \<and> sum_list (dict_values cc) = (n + 1) * int (length (nodes G))"
  using compute_colour_counts_ok [OF assms(1), of rt n] assms(2) by auto

theorem colour_count_total_witness:
  "wf_graph (cycle4 False) \<and> (0::int) \<le> 5 \<and>
   (\<exists>cc. compute_colour_counts sample_rt (cycle4 False) 5 = Inr cc \<and> sum_list (dict_values cc) = 24)"
proof -
  have n: "(0::int) \<le> 5" by simp
  have l: "int (length (nodes (cycle4 False))) = 4" by (simp add: cycle4_def)
  from colour_count_total [OF wf_cycle4 [of False] n, where rt = sample_rt] wf_cycle4 [of False] n
  show ?thesis by (simp add: l)
qed

text \<open>
  C5 (symmetric pairing). Combining the colours \<open>a\<close> and \<open>b\<close> gives the same colour
  as combining \<open>b\<close> and \<open>a\<close>, for any hash function: the pair is sorted before it is
  hashed.
\<close>

theorem new_colour_pair_symmetric:
  "new_colour_from_colour_pair rt a b = new_colour_from_colour_pair rt b a"
  by (auto simp: new_colour_from_colour_pair_def)



text \<open>
  C8, as the code has it. When the count vector of either histogram is entirely zero over
  the union of colours and the counts of the other fit \<open>int64\<close>, the comparator raises
  nothing: it returns 0.0 when the union is empty and NaN otherwise (numpy divides by
  the zero norm and only warns).
\<close>

theorem comparator_zero_vector_no_error:
  assumes "numpy_ok rt"
      and "u = set_union_order rt (dict_keys cc1) (dict_keys cc2)"
      and "list_all (\<lambda>x. x = 0) (map (\<lambda>c. dict_get cc1 c 0) u)
             \<and> list_all in_int64 (map (\<lambda>c. dict_get cc2 c 0) u)
           \<or> list_all in_int64 (map (\<lambda>c. dict_get cc1 c 0) u)
             \<and> list_all (\<lambda>x. x = 0) (map (\<lambda>c. dict_get cc2 c 0) u)"
  shows "compute_wlgk_from_colour_counts rt cc1 cc2 = Inr (if u = [] then Fin 0 else NaN)"
  using assms(3) comparator_first_zero [OF assms(1,2)] comparator_second_zero [OF assms(1,2)]
  by blast

theorem comparator_zero_vector_no_error_witness:
  "numpy_ok sample_rt
   \<and> [7] = set_union_order sample_rt (dict_keys ([] :: (colour, int) pydict))
              (dict_keys [(7, 1::int)])
   \<and> (list_all (\<lambda>x. x = 0) (map (\<lambda>c. dict_get ([] :: (colour, int) pydict) c 0) [7])
        \<and> list_all in_int64 (map (\<lambda>c. dict_get [(7::colour, 1::int)] c 0) [7])
      \<or> list_all in_int64 (map (\<lambda>c. dict_get ([] :: (colour, int) pydict) c 0) [7])
        \<and> list_all (\<lambda>x. x = 0) (map (\<lambda>c. dict_get [(7::colour, 1::int)] c 0) [7]))
   \<and> compute_wlgk_from_colour_counts sample_rt [] [(7, 1)] = Inr NaN"
proof -
  have u: "[7] = set_union_order sample_rt (dict_keys ([] :: (colour, int) pydict))
                   (dict_keys [(7, 1::int)])"
    by (simp add: sample_rt_def dict_keys_def)
  have z: "list_all (\<lambda>x. x = 0) (map (\<lambda>c. dict_get ([] :: (colour, int) pydict) c 0) [7])
        \<and> list_all in_int64 (map (\<lambda>c. dict_get [(7::colour, 1::int)] c 0) [7])
      \<or> list_all in_int64 (map (\<lambda>c. dict_get ([] :: (colour, int) pydict) c 0) [7])
        \<and> list_all (\<lambda>x. x = 0) (map (\<lambda>c. dict_get [(7::colour, 1::int)] c 0) [7])"
    by (simp add: dict_get_def in_int64_def)
  have "compute_wlgk_from_colour_counts sample_rt [] [(7, 1)] = Inr NaN"
    using comparator_zero_vector_no_error [OF sample_rt_numpy_ok u z] by simp
  with sample_rt_numpy_ok u z show ?thesis by blast
qed

text \<open>
  C8 as stated (a zero vector makes the comparator fail rather than return NaN or 0) does
  not hold: with an empty first histogram and the histogram \<open>{7: 1}\<close> the comparator
  returns NaN, and with two empty histograms it returns 0.0.
\<close>

theorem comparator_zero_vector_counterexample:
  "compute_wlgk_from_colour_counts sample_rt [] [(7, 1)] = Inr NaN
   \<and> compute_wlgk_from_colour_counts sample_rt [] [] = Inr (Fin 0)"
  by (simp add: compute_wlgk_from_colour_counts_def sample_rt_def dict_keys_def dict_get_def
      sample_norm_def in_int64_def spec_euclidean_norm_def sample_dot_def)

text \<open>
  C9 (zero iterations). With \<open>num_iterations = 0\<close> and graphs with nodes, no refinement
  round runs: each histogram is the accumulation of the initial colouring alone, \<open>wlgk\<close>
  returns what the comparator returns on these two histograms, and the count of a colour
  is the number of nodes whose initial colour (hash of the degree, or of the pair of
  in-degree and out-degree) it is.
\<close>

theorem zero_iterations:
  assumes "distinct (nodes G1)" "distinct (nodes G2)" "nodes G1 \<noteq> []" "nodes G2 \<noteq> []"
  shows "\<exists>h1 h2.
           h1 = update_colour_counts [] (get_initial_colours rt G1)
         \<and> h2 = update_colour_counts [] (get_initial_colours rt G2)
         \<and> compute_colour_counts rt G1 0 = Inr h1 \<and> compute_colour_counts rt G2 0 = Inr h2
         \<and> wlgk rt G1 G2 0 = ([], compute_wlgk_from_colour_counts rt h1 h2)
         \<and> (\<forall>c. dict_get h1 c 0
                 = int (length (filter (\<lambda>v. spec_initial_colour rt G1 v = c) (nodes G1))))
         \<and> (\<forall>c. dict_get h2 c 0
                 = int (length (filter (\<lambda>v. spec_initial_colour rt G2 v = c) (nodes G2))))"
  using assms
  by (simp add: wlgk_def compute_colour_counts_def Let_def initial_histogram_counts)

theorem zero_iterations_witness:
  "distinct (nodes (cycle3 True)) \<and> distinct (nodes (cycle4 False))
   \<and> nodes (cycle3 True) \<noteq> [] \<and> nodes (cycle4 False) \<noteq> []
   \<and> (\<exists>h1 h2.
           h1 = update_colour_counts [] (get_initial_colours sample_rt (cycle3 True))
         \<and> h2 = update_colour_counts [] (get_initial_colours sample_rt (cycle4 False))
         \<and> compute_colour_counts sample_rt (cycle3 True) 0 = Inr h1
         \<and> compute_colour_counts sample_rt (cycle4 False) 0 = Inr h2
         \<and> wlgk sample_rt (cycle3 True) (cycle4 False) 0
             = ([], compute_wlgk_from_colour_counts sample_rt h1 h2)
         \<and> (\<forall>c. dict_get h1 c 0
                 = int (length (filter (\<lambda>v. spec_initial_colour sample_rt (cycle3 True) v = c)
                                 (nodes (cycle3 True)))))
         \<and> (\<forall>c. dict_get h2 c 0
                 = int (length (filter (\<lambda>v. spec_initial_colour sample_rt (cycle4 False) v = c)
                                 (nodes (cycle4 False))))))"
proof -
  have d3: "distinct (nodes (cycle3 True))" by (simp add: cycle3_def)
  have d4: "distinct (nodes (cycle4 False))" by (simp add: cycle4_def)
  have n3: "nodes (cycle3 True) \<noteq> []" by (simp add: cycle3_def)
  have n4: "nodes (cycle4 False) \<noteq> []" by (simp add: cycle4_def)
  from zero_iterations [OF d3 d4 n3 n4, of sample_rt] d3 d4 n3 n4
  show ?thesis by blast
qed

text \<open>
  C10 (negative iteration counts). A negative \<open>num_iterations\<close> is not rejected: the
  refinement loop runs zero times, so \<open>wlgk\<close> returns what it returns for 0 iterations.
  On well-formed graphs with nodes (fewer than \<open>2^63\<close> of them, the most a Python
  container holds) that is a finite value, not an exception.
\<close>

theorem negative_iterations:
  assumes "n < 0" "set_order_ok rt" "wf_graph G1" "wf_graph G2" "nodes G1 \<noteq> []" "nodes G2 \<noteq> []"
  shows "wlgk rt G1 G2 n = wlgk rt G1 G2 0
       \<and> (numpy_ok rt \<and> int (length (nodes G1)) < 2 ^ 63 \<and> int (length (nodes G2)) < 2 ^ 63
            \<longrightarrow> (\<exists>s. wlgk rt G1 G2 n = ([], Inr (Fin s))))"
proof -
  have e: "compute_colour_counts rt G n = compute_colour_counts rt G 0" for G
    using assms(1) by (simp add: compute_colour_counts_def)
  have eq: "wlgk rt G1 G2 n = wlgk rt G1 G2 0" by (simp only: wlgk_def e)
  have fin: "\<exists>s. wlgk rt G1 G2 n = ([], Inr (Fin s))"
    if np: "numpy_ok rt" and l1: "int (length (nodes G1)) < 2 ^ 63"
      and l2: "int (length (nodes G2)) < 2 ^ 63"
  proof -
    from wlgk_nonempty [OF assms(3-6), of rt n] obtain cc1 cc2 where
      c: "pos_hist cc1" "pos_hist cc2"
        "sum_list (dict_values cc1) = (int (nat n) + 1) * int (length (nodes G1))"
        "sum_list (dict_values cc2) = (int (nat n) + 1) * int (length (nodes G2))"
        "wlgk rt G1 G2 n = ([], compute_wlgk_from_colour_counts rt cc1 cc2)" by blast
    have s1: "sum_list (dict_values cc1) < 2 ^ 63" and s2: "sum_list (dict_values cc2) < 2 ^ 63"
      using c(3,4) assms(1) l1 l2 by simp_all
    from comparator_finite [OF np assms(2) c(1,2) s1 s2] c(5) show ?thesis by auto
  qed
  from eq fin show ?thesis by blast
qed

theorem negative_iterations_witness:
  "(- 3 :: int) < 0 \<and> set_order_ok sample_rt \<and> wf_graph (cycle3 True) \<and> wf_graph (cycle4 True)
   \<and> nodes (cycle3 True) \<noteq> [] \<and> nodes (cycle4 True) \<noteq> []
   \<and> numpy_ok sample_rt
   \<and> int (length (nodes (cycle3 True))) < 2 ^ 63 \<and> int (length (nodes (cycle4 True))) < 2 ^ 63
   \<and> wlgk sample_rt (cycle3 True) (cycle4 True) (- 3) = wlgk sample_rt (cycle3 True) (cycle4 True) 0
   \<and> (\<exists>s. wlgk sample_rt (cycle3 True) (cycle4 True) (- 3) = ([], Inr (Fin s)))"
proof -
  have neg: "(- 3 :: int) < 0" by simp
  have n3: "nodes (cycle3 True) \<noteq> []" by (simp add: cycle3_def)
  have n4: "nodes (cycle4 True) \<noteq> []" by (simp add: cycle4_def)
  have l3: "int (length (nodes (cycle3 True))) < 2 ^ 63" by (simp add: cycle3_def)
  have l4: "int (length (nodes (cycle4 True))) < 2 ^ 63" by (simp add: cycle4_def)
  from negative_iterations [OF neg sample_rt_ok wf_cycle3 wf_cycle4 n3 n4]
    neg sample_rt_ok wf_cycle3 wf_cycle4 n3 n4 sample_rt_numpy_ok l3 l4
  show ?thesis by blast
qed

end
